theory Spec2Isabelle
  imports Main
begin

section \<open>Python values\<close>

text \<open>
  The values that flow through \<^verbatim>\<open>tweet2elasticsearch.py\<close>: what \<^verbatim>\<open>json.loads\<close>
  returns, what the command line hands to \<^verbatim>\<open>construct_query\<close>, and the documents
  sent to the index. A dict is an association list in insertion order; \<open>PDate\<close>
  is a \<^verbatim>\<open>datetime\<close> (a tick count of the clock).
\<close>

datatype pyval =
    PNone
  | PBool bool
  | PInt int
  | PStr string
  | PList "pyval list"
  | PTuple "pyval list"
  | PDict "(string \<times> pyval) list"
  | PDate nat

datatype error =
    UnboundLocalError
  | KeyError string
  | TypeError
  | AttributeError
  | IOError
  | ConfigError

text \<open>Python truth value testing (\<^verbatim>\<open>if x:\<close>).\<close>

fun truthy :: "pyval \<Rightarrow> bool" where
  "truthy PNone = False"
| "truthy (PBool b) = b"
| "truthy (PInt i) = (i \<noteq> 0)"
| "truthy (PStr s) = (s \<noteq> [])"
| "truthy (PList xs) = (xs \<noteq> [])"
| "truthy (PTuple xs) = (xs \<noteq> [])"
| "truthy (PDict kvs) = (kvs \<noteq> [])"
| "truthy (PDate t) = True"

text \<open>\<^verbatim>\<open>d[k] = v\<close> on a dict: replace the value of an existing key, else append.\<close>

fun dict_set :: "(string \<times> pyval) list \<Rightarrow> string \<Rightarrow> pyval \<Rightarrow> (string \<times> pyval) list" where
  "dict_set [] k v = [(k, v)]"
| "dict_set ((k', v') # kvs) k v =
     (if k' = k then (k, v) # kvs else (k', v') # dict_set kvs k v)"

text \<open>\<^verbatim>\<open>d.get(k)\<close>: the value of the key, or nothing.\<close>

fun dict_get :: "(string \<times> pyval) list \<Rightarrow> string \<Rightarrow> pyval option" where
  "dict_get [] k = None"
| "dict_get ((k', v') # kvs) k = (if k' = k then Some v' else dict_get kvs k)"


section \<open>Query builder\<close>

text \<open>
  \<^verbatim>\<open>construct_query(text, date_from, date_to, user_mentions, hashtags, users)\<close>.
  Every argument defaults to \<^verbatim>\<open>None\<close>. The source builds the dict \<^verbatim>\<open>q\<close> with an empty
  \<^verbatim>\<open>must\<close> list, sets \<^verbatim>\<open>q["query"]\<close> when \<^verbatim>\<open>text\<close> is truthy, appends one clause per
  truthy filter argument, and wraps \<^verbatim>\<open>q\<close> as \<^verbatim>\<open>{"query": {"filtered": q}}\<close>.
\<close>

definition terms_clause :: "string \<Rightarrow> pyval \<Rightarrow> pyval" where
  "terms_clause field vals = PDict [(''terms'', PDict [(field, vals)])]"

definition match_clause :: "pyval \<Rightarrow> pyval" where
  "match_clause text = PDict [(''match'', PDict [(''text'', text)])]"

definition range_clause :: "pyval \<Rightarrow> pyval \<Rightarrow> pyval" where
  "range_clause date_from date_to =
     (let ca0 = [];
          ca1 = (if truthy date_from then dict_set ca0 ''gte'' date_from else ca0);
          ca2 = (if truthy date_to then dict_set ca1 ''lte'' date_to else ca1)
      in PDict [(''range'', PDict [(''created_at'', PDict ca2)])])"

definition must_clauses :: "pyval \<Rightarrow> pyval \<Rightarrow> pyval \<Rightarrow> pyval \<Rightarrow> pyval \<Rightarrow> pyval list" where
  "must_clauses date_from date_to user_mentions hashtags users =
     (let m0 = [];
          m1 = (if truthy user_mentions then m0 @ [terms_clause ''user_mentions'' user_mentions] else m0);
          m2 = (if truthy hashtags then m1 @ [terms_clause ''hashtags'' hashtags] else m1);
          m3 = (if truthy users then m2 @ [terms_clause ''screen_name'' users] else m2);
          m4 = (if truthy date_from \<or> truthy date_to
                then m3 @ [range_clause date_from date_to] else m3)
      in m4)"

definition filtered_body :: "pyval \<Rightarrow> pyval \<Rightarrow> pyval \<Rightarrow> pyval \<Rightarrow> pyval \<Rightarrow> pyval \<Rightarrow> (string \<times> pyval) list" where
  "filtered_body text date_from date_to user_mentions hashtags users =
     (let q0 = [(''filter'', PDict [(''bool'', PDict [(''must'',
                  PList (must_clauses date_from date_to user_mentions hashtags users))])])]
      in if truthy text then dict_set q0 ''query'' (match_clause text) else q0)"

definition construct_query :: "pyval \<Rightarrow> pyval \<Rightarrow> pyval \<Rightarrow> pyval \<Rightarrow> pyval \<Rightarrow> pyval \<Rightarrow> pyval" where
  "construct_query text date_from date_to user_mentions hashtags users =
     PDict [(''query'', PDict [(''filtered'',
       PDict (filtered_body text date_from date_to user_mentions hashtags users))])]"

text \<open>Reading a built query back: the filter clauses and the scored part.\<close>

definition query_filtered :: "pyval \<Rightarrow> (string \<times> pyval) list" where
  "query_filtered q =
     (case q of
        PDict [(k1, PDict [(k2, PDict body)])] \<Rightarrow>
          (if k1 = ''query'' \<and> k2 = ''filtered'' then body else [])
      | _ \<Rightarrow> [])"

definition query_must :: "pyval \<Rightarrow> pyval list" where
  "query_must q =
     (case dict_get (query_filtered q) ''filter'' of
        Some (PDict [(k1, PDict [(k2, PList cs)])]) \<Rightarrow>
          (if k1 = ''bool'' \<and> k2 = ''must'' then cs else [])
      | _ \<Rightarrow> [])"

definition query_scored :: "pyval \<Rightarrow> pyval option" where
  "query_scored q = dict_get (query_filtered q) ''query''"

definition is_terms_on :: "string \<Rightarrow> pyval \<Rightarrow> bool" where
  "is_terms_on field c =
     (case c of PDict [(k, PDict [(f, v)])] \<Rightarrow> k = ''terms'' \<and> f = field | _ \<Rightarrow> False)"

definition is_range :: "pyval \<Rightarrow> bool" where
  "is_range c =
     (case c of PDict [(k, PDict [(f, v)])] \<Rightarrow> k = ''range'' \<and> f = ''created_at'' | _ \<Rightarrow> False)"


section \<open>Strings, paths and the in-memory file\<close>

text \<open>\<^verbatim>\<open>str.lower()\<close> on a byte string: the ASCII letters A to Z are mapped to a to z.\<close>

definition lower_char :: "char \<Rightarrow> char" where
  "lower_char c =
     (let n = (of_char c :: nat) in if 65 \<le> n \<and> n \<le> 90 then char_of (n + 32) else c)"

definition lower :: "string \<Rightarrow> string" where
  "lower s = map lower_char s"

definition startswith :: "string \<Rightarrow> string \<Rightarrow> bool" where
  "startswith s p = (take (length p) s = p)"

definition endswith :: "string \<Rightarrow> string \<Rightarrow> bool" where
  "endswith s p = (length p \<le> length s \<and> drop (length s - length p) s = p)"

text \<open>\<^verbatim>\<open>os.path.join(a, b)\<close> and \<^verbatim>\<open>os.path.basename(p)\<close> of \<^verbatim>\<open>posixpath\<close>.\<close>

definition os_path_join :: "string \<Rightarrow> string \<Rightarrow> string" where
  "os_path_join a b =
     (if startswith b ''/'' then b
      else if a = [] \<or> endswith a ''/'' then a @ b
      else a @ ''/'' @ b)"

definition basename :: "string \<Rightarrow> string" where
  "basename p = rev (takeWhile (\<lambda>c. c \<noteq> CHR ''/'') (rev p))"

text \<open>The slice \<^verbatim>\<open>s[1:-1]\<close>.\<close>

definition slice_1_m1 :: "string \<Rightarrow> string" where
  "slice_1_m1 s = drop 1 (take (length s - 1) s)"

text \<open>
  \<^verbatim>\<open>StringIO.StringIO\<close> over the decompressed content: a buffer and a cursor.
  \<^verbatim>\<open>readline\<close> returns the characters from the cursor up to and including the next
  newline (or to the end of the buffer) and advances the cursor by their number;
  iterating the object calls \<^verbatim>\<open>readline\<close> and stops on the empty string; \<^verbatim>\<open>tell\<close>
  returns the cursor.
\<close>

fun take_line :: "string \<Rightarrow> string" where
  "take_line [] = []"
| "take_line (c # cs) = (if c = CHR 0x0A then [c] else c # take_line cs)"

definition readline :: "string \<Rightarrow> nat \<Rightarrow> string" where
  "readline buf pos = take_line (drop pos buf)"


section \<open>Operations on parsed JSON\<close>

fun bind_err :: "error + 'a \<Rightarrow> ('a \<Rightarrow> error + 'b) \<Rightarrow> error + 'b" where
  "bind_err (Inl e) f = Inl e"
| "bind_err (Inr x) f = f x"

fun map_err :: "('a \<Rightarrow> error + 'b) \<Rightarrow> 'a list \<Rightarrow> error + 'b list" where
  "map_err f [] = Inr []"
| "map_err f (x # xs) =
     bind_err (f x) (\<lambda>y. bind_err (map_err f xs) (\<lambda>ys. Inr (y # ys)))"

fun is_substring :: "string \<Rightarrow> string \<Rightarrow> bool" where
  "is_substring k [] = (k = [])"
| "is_substring k (c # cs) = (take (length k) (c # cs) = k \<or> is_substring k cs)"

text \<open>\<^verbatim>\<open>k in v\<close> for a string \<open>k\<close>.\<close>

fun py_contains :: "string \<Rightarrow> pyval \<Rightarrow> error + bool" where
  "py_contains k (PDict kvs) = Inr (dict_get kvs k \<noteq> None)"
| "py_contains k (PList xs) = Inr (PStr k \<in> set xs)"
| "py_contains k (PTuple xs) = Inr (PStr k \<in> set xs)"
| "py_contains k (PStr s) = Inr (is_substring k s)"
| "py_contains k PNone = Inl TypeError"
| "py_contains k (PBool b) = Inl TypeError"
| "py_contains k (PInt i) = Inl TypeError"
| "py_contains k (PDate t) = Inl TypeError"

text \<open>\<^verbatim>\<open>v[k]\<close> for a string \<open>k\<close>.\<close>

fun py_getitem :: "pyval \<Rightarrow> string \<Rightarrow> error + pyval" where
  "py_getitem (PDict kvs) k =
     (case dict_get kvs k of None \<Rightarrow> Inl (KeyError k) | Some v \<Rightarrow> Inr v)"
| "py_getitem (PList xs) k = Inl TypeError"
| "py_getitem (PTuple xs) k = Inl TypeError"
| "py_getitem (PStr s) k = Inl TypeError"
| "py_getitem PNone k = Inl TypeError"
| "py_getitem (PBool b) k = Inl TypeError"
| "py_getitem (PInt i) k = Inl TypeError"
| "py_getitem (PDate t) k = Inl TypeError"

text \<open>\<^verbatim>\<open>for x in v\<close>: the elements visited.\<close>

fun py_iter :: "pyval \<Rightarrow> error + pyval list" where
  "py_iter (PList xs) = Inr xs"
| "py_iter (PTuple xs) = Inr xs"
| "py_iter (PDict kvs) = Inr (map (\<lambda>kv. PStr (fst kv)) kvs)"
| "py_iter (PStr s) = Inr (map (\<lambda>c. PStr [c]) s)"
| "py_iter PNone = Inl TypeError"
| "py_iter (PBool b) = Inl TypeError"
| "py_iter (PInt i) = Inl TypeError"
| "py_iter (PDate t) = Inl TypeError"

text \<open>\<^verbatim>\<open>v.lower()\<close>: only a string has the method.\<close>

fun py_lower :: "pyval \<Rightarrow> error + string" where
  "py_lower (PStr s) = Inr (lower s)"
| "py_lower PNone = Inl AttributeError"
| "py_lower (PBool b) = Inl AttributeError"
| "py_lower (PInt i) = Inl AttributeError"
| "py_lower (PList xs) = Inl AttributeError"
| "py_lower (PTuple xs) = Inl AttributeError"
| "py_lower (PDict kvs) = Inl AttributeError"
| "py_lower (PDate t) = Inl AttributeError"


section \<open>Effects\<close>

text \<open>
  Everything the program does to the outside is an event appended to a trace: log
  calls (the format string and its arguments), calls of the Elasticsearch client, and
  calls of the S3 connection.
\<close>

datatype level = Debug | Info | Warn

datatype event =
    Log level string "pyval list"
  | EsSearch string string string
  | EsBulk "pyval list"
  | EsBulkAborted "pyval list"
  | EsIndex string string pyval pyval
  | S3Connect
  | S3GetBucket string
  | S3List string
  | S3GetFile string

text \<open>
  An object of the bucket listing: its name, its ETag as the service quotes it, the
  \<^verbatim>\<open>md5\<close> attribute the key object has once its content was fetched (\<^verbatim>\<open>None\<close> or a
  string), and what reading the fetched content through gzip gives (\<open>None\<close> for
  \<^verbatim>\<open>IOError\<close>).
\<close>

record s3key =
  key_name :: string
  key_etag :: string
  key_md5 :: pyval
  key_gunzip :: "string option"

text \<open>
  The collaborators the program calls, as functions. \<open>json_loads\<close> is
  \<^verbatim>\<open>json.loads(unicode(line))\<close>, with \<open>None\<close> when it raises. \<open>es_search_total\<close> is
  \<^verbatim>\<open>es.search(index, doc_type, q)["hits"]["total"]\<close> and \<open>es_bulk\<close> the pair returned by
  \<^verbatim>\<open>helpers.bulk\<close>; both may depend on all that happened before, so they take the
  trace. \<open>gzip_open\<close> tells whether \<^verbatim>\<open>gzip.open(path, "rb")\<close> opens the file (it raises
  \<^verbatim>\<open>IOError\<close> otherwise), and \<open>gzip_read\<close> is \<^verbatim>\<open>read()\<close> on the opened file, with
  \<open>None\<close> for \<^verbatim>\<open>IOError\<close>. \<open>os_walk\<close> lists each directory with its file names, top
  down.
\<close>

record externals =
  json_loads :: "string \<Rightarrow> pyval option"
  md5_hexdigest :: "string \<Rightarrow> string"
  os_walk :: "string \<Rightarrow> (string \<times> string list) list"
  gzip_open :: "string \<Rightarrow> bool"
  gzip_read :: "string \<Rightarrow> string option"
  environ :: "string \<Rightarrow> string option"
  s3_list :: "string \<Rightarrow> s3key list"
  es_search_total :: "event list \<Rightarrow> string \<Rightarrow> string \<Rightarrow> nat"
  es_bulk :: "event list \<Rightarrow> pyval list \<Rightarrow> nat \<times> pyval list"
  now :: "event list \<Rightarrow> nat"

definition index_name :: string where
  "index_name = ''sample-index''"

definition default_bucket_name :: string where
  "default_bucket_name = ''gwlib-sfm-sample''"


section \<open>Record extractor\<close>

text \<open>
  The bulk action built for a tweet (lines 123 to 145 of the source): the reduced
  document \<^verbatim>\<open>s\<close>, then the action \<^verbatim>\<open>b\<close>. Each subscript may raise; the first one that
  does ends the evaluation.
\<close>

definition tweet_action :: "string \<Rightarrow> nat \<Rightarrow> pyval \<Rightarrow> error + pyval" where
  "tweet_action filepath offset uline =
     bind_err (py_getitem uline ''id'') (\<lambda>tid.
     bind_err (py_getitem uline ''user'') (\<lambda>user.
     bind_err (py_getitem user ''screen_name'') (\<lambda>screen_name.
     bind_err (py_getitem uline ''text'') (\<lambda>text.
     bind_err (py_getitem uline ''created_at'') (\<lambda>created_at.
     bind_err (py_getitem uline ''entities'') (\<lambda>entities.
     bind_err (py_getitem entities ''user_mentions'') (\<lambda>mentions.
     bind_err (py_iter mentions) (\<lambda>ms.
     bind_err (map_err (\<lambda>m. py_getitem m ''screen_name'') ms) (\<lambda>user_mentions.
     bind_err (py_getitem uline ''entities'') (\<lambda>entities'.
     bind_err (py_getitem entities' ''hashtags'') (\<lambda>tags.
     bind_err (py_iter tags) (\<lambda>hs.
     bind_err (map_err (\<lambda>h. py_getitem h ''text'') hs) (\<lambda>hashtags.
     bind_err (py_getitem uline ''id'') (\<lambda>tid'.
       Inr (PDict [
         (''_index'', PStr ''sample-index''),
         (''_type'', PStr ''tweet''),
         (''_id'', tid'),
         (''_source'', PDict [
            (''file'', PStr (basename filepath)),
            (''offset'', PInt (int offset)),
            (''id'', tid),
            (''screen_name'', screen_name),
            (''text'', text),
            (''created_at'', created_at),
            (''user_mentions'', PList user_mentions),
            (''hashtags'', PList hashtags)])])))))))))))))))"

text \<open>
  What a run of the generator gives its consumer: the actions yielded, the log calls
  made on the way, and the exception that ended the run, if one did.
\<close>

record gen_run =
  yielded :: "pyval list"
  logged :: "event list"
  raised :: "error option"

text \<open>
  One pass of the loop body for a line that is not \<^verbatim>\<open>'\n'\<close> (lines 116 to 148). The
  variable \<^verbatim>\<open>uline\<close> is a local of the generator: unbound before the first successful
  parse (\<open>None\<close>), and left as it was when \<^verbatim>\<open>json.loads\<close> raises, since the
  \<^verbatim>\<open>except\<close> branch only logs. The result is the actions yielded, the log calls, and
  either the exception or the value of \<^verbatim>\<open>uline\<close> after the pass.
\<close>

definition gen_line ::
  "(string \<Rightarrow> pyval option) \<Rightarrow> string \<Rightarrow> nat \<Rightarrow> pyval option \<Rightarrow> string
     \<Rightarrow> pyval list \<times> event list \<times> (error + pyval option)" where
  "gen_line loads filepath offset uline line =
     (let (evs, uline') =
            (case loads line of
               Some v \<Rightarrow> ([], Some v)
             | None \<Rightarrow> ([Log Warn ''Malformed tweet in %s: %s'' [PStr filepath, PStr line]], uline))
      in case uline' of
           None \<Rightarrow> ([], evs, Inl UnboundLocalError)
         | Some u \<Rightarrow>
            (case py_contains ''delete'' u of
               Inl e \<Rightarrow> ([], evs, Inl e)
             | Inr True \<Rightarrow> ([], evs, Inr uline')
             | Inr False \<Rightarrow>
                (case py_contains ''id'' u of
                   Inl e \<Rightarrow> ([], evs, Inl e)
                 | Inr True \<Rightarrow>
                    (case tweet_action filepath offset u of
                       Inl e \<Rightarrow> ([], evs, Inl e)
                     | Inr b \<Rightarrow> ([b], evs, Inr uline'))
                 | Inr False \<Rightarrow>
                    ([], evs @ [Log Warn ''Tweet in %s missing fields: %s''
                                  [PStr filepath, PStr line]], Inr uline'))))"

lemma take_line_empty: "take_line s = [] \<longleftrightarrow> s = []"
  by (cases s) auto

text \<open>
  The loop \<^verbatim>\<open>for line in file_contents\<close>: \<open>pos\<close> is the cursor of the buffer and
  \<open>offset\<close> the variable of that name, assigned \<^verbatim>\<open>file_contents.tell()\<close> at the end of
  every pass.
\<close>

function gen_loop ::
  "(string \<Rightarrow> pyval option) \<Rightarrow> string \<Rightarrow> string \<Rightarrow> nat \<Rightarrow> nat \<Rightarrow> pyval option \<Rightarrow> gen_run" where
  "gen_loop loads filepath buf pos offset uline =
     (let line = readline buf pos in
      if line = [] then \<lparr>yielded = [], logged = [], raised = None\<rparr>
      else
        let pos' = pos + length line in
        if line = [CHR 0x0A] then gen_loop loads filepath buf pos' pos' uline
        else
          (case gen_line loads filepath offset uline line of
             (ys, evs, Inl e) \<Rightarrow> \<lparr>yielded = ys, logged = evs, raised = Some e\<rparr>
           | (ys, evs, Inr uline') \<Rightarrow>
              (let rest = gen_loop loads filepath buf pos' pos' uline'
               in \<lparr>yielded = ys @ yielded rest, logged = evs @ logged rest,
                   raised = raised rest\<rparr>)))"
  by pat_completeness auto
termination
proof (relation "measure (\<lambda>(loads, filepath, buf, pos, offset, uline). length buf - pos)")
  show "wf (measure (\<lambda>(loads, filepath, buf, pos, offset, uline). length buf - pos))"
    by simp
next
  fix loads :: "string \<Rightarrow> pyval option" and filepath buf :: string
    and pos offset :: nat and uline :: "pyval option" and line :: string and pos' :: nat
  assume l: "line = readline buf pos" and ne: "line \<noteq> []" and p: "pos' = pos + length line"
  from l ne have "pos < length buf"
    by (auto simp: readline_def take_line_empty)
  with ne p
  show "((loads, filepath, buf, pos', pos', uline), (loads, filepath, buf, pos, offset, uline))
          \<in> measure (\<lambda>(loads, filepath, buf, pos, offset, uline). length buf - pos)"
    by (cases line) auto
next
  fix loads :: "string \<Rightarrow> pyval option" and filepath buf :: string
    and pos offset :: nat and uline uline' :: "pyval option" and line :: string and pos' :: nat
    and x :: "pyval list \<times> event list \<times> (error + pyval option)"
    and ys :: "pyval list" and y :: "event list \<times> (error + pyval option)"
    and evs :: "event list" and r :: "error + pyval option"
  assume l: "line = readline buf pos" and ne: "line \<noteq> []" and p: "pos' = pos + length line"
  from l ne have "pos < length buf"
    by (auto simp: readline_def take_line_empty)
  with ne p
  show "((loads, filepath, buf, pos', pos', uline'), (loads, filepath, buf, pos, offset, uline))
          \<in> measure (\<lambda>(loads, filepath, buf, pos, offset, uline). length buf - pos)"
    by (cases line) auto
qed

declare gen_loop.simps [simp del]

definition gen_tweets :: "(string \<Rightarrow> pyval option) \<Rightarrow> string \<Rightarrow> string \<Rightarrow> gen_run" where
  "gen_tweets loads filepath file_contents = gen_loop loads filepath file_contents 0 0 None"


section \<open>Duplicate detector\<close>

text \<open>
  One of the two lookups of \<^verbatim>\<open>already_indexed\<close>: when the fingerprint is truthy, search
  the \<^verbatim>\<open>file\<close> documents for \<^verbatim>\<open>field:lowercased-fingerprint\<close>, log the result, and
  report whether the total is non-zero.
\<close>

definition lookup_fingerprint ::
  "externals \<Rightarrow> string \<Rightarrow> pyval \<Rightarrow> event list \<Rightarrow> (error + bool) \<times> event list" where
  "lookup_fingerprint ext field fp tr =
     (if truthy fp then
        (case py_lower fp of
           Inl e \<Rightarrow> (Inl e, tr)
         | Inr lo \<Rightarrow>
            (let q = field @ '':'' @ lo;
                 total = es_search_total ext tr ''file'' q;
                 tr' = tr @ [EsSearch index_name ''file'' q,
                             Log Debug (''Result of checking '' @ field @ '' %s: %s'')
                               [PStr lo, PInt (int total)]]
             in (Inr (total \<noteq> 0), tr')))
      else (Inr False, tr))"

definition already_indexed ::
  "externals \<Rightarrow> pyval \<Rightarrow> pyval \<Rightarrow> event list \<Rightarrow> (error + bool) \<times> event list" where
  "already_indexed ext md5 etag tr =
     (case lookup_fingerprint ext ''md5'' md5 tr of
        (Inl e, tr1) \<Rightarrow> (Inl e, tr1)
      | (Inr True, tr1) \<Rightarrow> (Inr True, tr1)
      | (Inr False, tr1) \<Rightarrow>
         (case lookup_fingerprint ext ''etag'' etag tr1 of
            (Inl e, tr2) \<Rightarrow> (Inl e, tr2)
          | (Inr True, tr2) \<Rightarrow> (Inr True, tr2)
          | (Inr False, tr2) \<Rightarrow> (Inr False, tr2)))"


section \<open>Batch indexer\<close>

text \<open>
  \<^verbatim>\<open>record_tweets(filepath, md5, etag, tweet_gen)\<close>. \<^verbatim>\<open>helpers.bulk\<close> consumes the
  generator, so the generator's log calls come first and its exception, if any, leaves
  \<^verbatim>\<open>record_tweets\<close> at once. Line 334 ends in a comma, so the value stored under
  \<^verbatim>\<open>md5\<close> is a one-element tuple. Line 338 evaluates \<^verbatim>\<open>md5.lower()\<close> and
  \<^verbatim>\<open>etag.lower()\<close> as arguments of the log call, whatever the log level is; line 339
  passes \<^verbatim>\<open>md5 if md5 else etag\<close> as the document id.
\<close>

definition record_tweets ::
  "externals \<Rightarrow> string \<Rightarrow> pyval \<Rightarrow> pyval \<Rightarrow> gen_run \<Rightarrow> event list
     \<Rightarrow> (error + unit) \<times> event list" where
  "record_tweets ext filepath md5 etag tweet_gen tr =
     (let tr1 = tr @ logged tweet_gen in
      case raised tweet_gen of
        Some e \<Rightarrow> (Inl e, tr1 @ [EsBulkAborted (yielded tweet_gen)])
      | None \<Rightarrow>
         (let (indexed_count, errors) = es_bulk ext tr1 (yielded tweet_gen);
              tr2 = tr1 @ [EsBulk (yielded tweet_gen),
                           Log Info ''%s: %s tweets indexed.''
                             [PStr filepath, PInt (int indexed_count)]];
              tr3 = (if errors \<noteq> []
                     then tr2 @ [Log Warn ''Errors indexings %s: %s'' [PStr filepath, PList errors]]
                     else tr2);
              filename = basename filepath;
              s0 = [(''file'', PStr filename), (''index_date'', PDate (now ext tr3))]
          in case (if truthy md5
                   then bind_err (py_lower md5) (\<lambda>lo. Inr (dict_set s0 ''md5'' (PTuple [PStr lo])))
                   else Inr s0) of
               Inl e \<Rightarrow> (Inl e, tr3)
             | Inr s1 \<Rightarrow>
                (case (if truthy etag
                       then bind_err (py_lower etag) (\<lambda>lo. Inr (dict_set s1 ''etag'' (PStr lo)))
                       else Inr s1) of
                   Inl e \<Rightarrow> (Inl e, tr3)
                 | Inr s2 \<Rightarrow>
                    (case bind_err (py_lower md5) (\<lambda>m. bind_err (py_lower etag) (\<lambda>e. Inr (m, e))) of
                       Inl e \<Rightarrow> (Inl e, tr3)
                     | Inr (m, e) \<Rightarrow>
                        (Inr (),
                         tr3 @ [Log Debug ''Recording file %s with md5 %s and etag %s''
                                  [PStr filename, PStr m, PStr e],
                                EsIndex index_name ''file'' (PDict s2)
                                  (if truthy md5 then md5 else etag)])))))"


section \<open>Source walkers\<close>

text \<open>\<^verbatim>\<open>max_files and file_counter >= max_files\<close>, with \<^verbatim>\<open>max_files\<close> an int or \<^verbatim>\<open>None\<close>.\<close>

definition cap_reached :: "int option \<Rightarrow> int \<Rightarrow> bool" where
  "cap_reached max_files file_counter =
     (case max_files of None \<Rightarrow> False | Some n \<Rightarrow> n \<noteq> 0 \<and> file_counter \<ge> n)"

text \<open>
  The body of the inner loop of \<^verbatim>\<open>walk_local_directory\<close> for a matching file name, up to
  but not including \<^verbatim>\<open>file_counter += 1\<close>. The result is \<open>Inr True\<close> when control reaches
  the increment and \<open>Inr False\<close> when \<^verbatim>\<open>continue\<close> skips it (a corrupt file). The
  fingerprint is \<^verbatim>\<open>hashlib.md5(filepath).hexdigest()\<close>: the digest of the path string.
  \<^verbatim>\<open>gzip.open\<close> (line 259) stands outside the \<^verbatim>\<open>try\<close>: an \<^verbatim>\<open>IOError\<close> on opening
  leaves the walker, and only one raised by \<^verbatim>\<open>read()\<close> is caught and logged.
\<close>

definition local_fingerprint :: "externals \<Rightarrow> string \<Rightarrow> string \<Rightarrow> pyval" where
  "local_fingerprint ext root filename = PStr (md5_hexdigest ext (os_path_join root filename))"

definition index_local_file ::
  "externals \<Rightarrow> string \<Rightarrow> string \<Rightarrow> event list \<Rightarrow> (error + bool) \<times> event list" where
  "index_local_file ext root filename tr =
     (let filepath = os_path_join root filename;
          md5 = local_fingerprint ext root filename
      in case already_indexed ext md5 PNone tr of
           (Inl e, tr1) \<Rightarrow> (Inl e, tr1)
         | (Inr True, tr1) \<Rightarrow>
            (Inr True, tr1 @ [Log Info ''%s already indexed'' [PStr filename]])
         | (Inr False, tr1) \<Rightarrow>
            (if gzip_open ext filepath then
               (case gzip_read ext filepath of
                  None \<Rightarrow>
                   (Inr False, tr1 @ [Log Warn ''Corrupt sample file: %s'' [PStr filename]])
                | Some file_contents \<Rightarrow>
                   (case record_tweets ext filename md5 PNone
                           (gen_tweets (json_loads ext) filename file_contents) tr1 of
                      (Inl e, tr2) \<Rightarrow> (Inl e, tr2)
                    | (Inr u, tr2) \<Rightarrow> (Inr True, tr2)))
             else (Inl IOError, tr1)))"

text \<open>The inner loop \<^verbatim>\<open>for filename in files\<close>, with its \<^verbatim>\<open>break\<close>.\<close>

fun walk_files ::
  "externals \<Rightarrow> string \<Rightarrow> int option \<Rightarrow> string list \<Rightarrow> int \<Rightarrow> event list
     \<Rightarrow> (error + unit) \<times> event list" where
  "walk_files ext root max_files [] file_counter tr = (Inr (), tr)"
| "walk_files ext root max_files (filename # files) file_counter tr =
     (if startswith filename ''sample-'' \<and> endswith filename ''.gz'' then
        (case index_local_file ext root filename tr of
           (Inl e, tr1) \<Rightarrow> (Inl e, tr1)
         | (Inr False, tr1) \<Rightarrow> walk_files ext root max_files files file_counter tr1
         | (Inr True, tr1) \<Rightarrow>
            (if cap_reached max_files (file_counter + 1) then (Inr (), tr1)
             else walk_files ext root max_files files (file_counter + 1) tr1))
      else walk_files ext root max_files files file_counter tr)"

text \<open>
  The outer loop \<^verbatim>\<open>for root, dirs, files in os.walk(dirpath)\<close>: \<^verbatim>\<open>file_counter = 0\<close> is
  its first statement, so every directory starts the inner loop at zero.
\<close>

fun walk_dirs ::
  "externals \<Rightarrow> int option \<Rightarrow> (string \<times> string list) list \<Rightarrow> event list
     \<Rightarrow> (error + unit) \<times> event list" where
  "walk_dirs ext max_files [] tr = (Inr (), tr)"
| "walk_dirs ext max_files ((root, files) # ds) tr =
     (case walk_files ext root max_files files 0 tr of
        (Inl e, tr1) \<Rightarrow> (Inl e, tr1)
      | (Inr u, tr1) \<Rightarrow> walk_dirs ext max_files ds tr1)"

definition walk_local_directory ::
  "externals \<Rightarrow> string \<Rightarrow> int option \<Rightarrow> event list \<Rightarrow> (error + unit) \<times> event list" where
  "walk_local_directory ext dirpath max_files tr =
     walk_dirs ext max_files (os_walk ext dirpath) tr"

text \<open>
  The body of the loop of \<^verbatim>\<open>walk_bucket\<close> for one key, up to the increment. Here the
  gzip object is built over the fetched bytes in memory, so only \<^verbatim>\<open>read()\<close> can raise
  \<^verbatim>\<open>IOError\<close>, inside the \<^verbatim>\<open>try\<close>. A network failure of the fetch is not modelled.
\<close>

definition index_key ::
  "externals \<Rightarrow> s3key \<Rightarrow> event list \<Rightarrow> (error + bool) \<times> event list" where
  "index_key ext key tr =
     (let etag = PStr (slice_1_m1 (key_etag key))
      in case already_indexed ext PNone etag tr of
           (Inl e, tr1) \<Rightarrow> (Inl e, tr1)
         | (Inr True, tr1) \<Rightarrow>
            (Inr True, tr1 @ [Log Info ''%s already indexed'' [PStr (key_name key)]])
         | (Inr False, tr1) \<Rightarrow>
            (let tr2 = tr1 @ [S3GetFile (key_name key)]
             in case key_gunzip key of
                  None \<Rightarrow>
                   (Inr False, tr2 @ [Log Warn ''Corrupt sample file: %s'' [PStr (key_name key)]])
                | Some file_contents \<Rightarrow>
                   (case record_tweets ext (key_name key) (key_md5 key) etag
                           (gen_tweets (json_loads ext) (key_name key) file_contents) tr2 of
                      (Inl e, tr3) \<Rightarrow> (Inl e, tr3)
                    | (Inr u, tr3) \<Rightarrow> (Inr True, tr3))))"

fun walk_keys ::
  "externals \<Rightarrow> int option \<Rightarrow> s3key list \<Rightarrow> int \<Rightarrow> event list
     \<Rightarrow> (error + unit) \<times> event list" where
  "walk_keys ext max_files [] file_counter tr = (Inr (), tr)"
| "walk_keys ext max_files (key # keys) file_counter tr =
     (case index_key ext key tr of
        (Inl e, tr1) \<Rightarrow> (Inl e, tr1)
      | (Inr False, tr1) \<Rightarrow> walk_keys ext max_files keys file_counter tr1
      | (Inr True, tr1) \<Rightarrow>
         (if cap_reached max_files (file_counter + 1) then (Inr (), tr1)
          else walk_keys ext max_files keys (file_counter + 1) tr1))"

text \<open>\<^verbatim>\<open>not os.environ.get(name)\<close>.\<close>

definition env_missing :: "externals \<Rightarrow> string \<Rightarrow> bool" where
  "env_missing ext name = (case environ ext name of None \<Rightarrow> True | Some v \<Rightarrow> v = [])"

definition walk_bucket ::
  "externals \<Rightarrow> string \<Rightarrow> int option \<Rightarrow> event list \<Rightarrow> (error + unit) \<times> event list" where
  "walk_bucket ext bucket_name max_files tr =
     (if env_missing ext ''AWS_ACCESS_KEY_ID'' \<or> env_missing ext ''AWS_SECRET_ACCESS_KEY''
      then (Inl ConfigError, tr)
      else walk_keys ext max_files (s3_list ext bucket_name) 0
             (tr @ [S3Connect, S3GetBucket bucket_name, S3List bucket_name]))"


section \<open>The extractor as specified\<close>

text \<open>
  The lines of a content, each with its newline; the last one may lack it. These are
  the strings the iteration over the in-memory file returns, one after the other
  (\<open>split_lines_readline\<close> below).
\<close>

fun split_lines :: "string \<Rightarrow> string list" where
  "split_lines [] = []"
| "split_lines (c # cs) =
     (if c = CHR 0x0A then [c] # split_lines cs
      else (case split_lines cs of [] \<Rightarrow> [[c]] | l # ls \<Rightarrow> (c # l) # ls))"

text \<open>
  The extractor in the words of the specification (section 4.1): skip an empty line;
  skip a line that does not parse; skip a delete event; skip an object without
  \<^verbatim>\<open>id\<close>; otherwise build the record, with the position before the line as its
  offset. \<open>spec_records\<close> does this for the lines one after the other, the offset
  advancing by the length of each.
\<close>

definition spec_line :: "(string \<Rightarrow> pyval option) \<Rightarrow> string \<Rightarrow> nat \<Rightarrow> string \<Rightarrow> pyval list" where
  "spec_line loads filepath offset line =
     (if line = [CHR 0x0A] then []
      else case loads line of
             None \<Rightarrow> []
           | Some u \<Rightarrow>
              (if py_contains ''delete'' u = Inr True then []
               else if py_contains ''id'' u = Inr True
                    then (case tweet_action filepath offset u of Inl e \<Rightarrow> [] | Inr b \<Rightarrow> [b])
                    else []))"

fun spec_records :: "(string \<Rightarrow> pyval option) \<Rightarrow> string \<Rightarrow> nat \<Rightarrow> string list \<Rightarrow> pyval list" where
  "spec_records loads filepath offset [] = []"
| "spec_records loads filepath offset (line # ls) =
     spec_line loads filepath offset line @ spec_records loads filepath (offset + length line) ls"

text \<open>
  A line on which the loop body of \<^verbatim>\<open>gen_tweets\<close> raises nothing and depends on no
  earlier line: it is empty, or it parses to a value on which the two membership tests
  and the construction of the record succeed.
\<close>

definition line_ok :: "(string \<Rightarrow> pyval option) \<Rightarrow> string \<Rightarrow> string \<Rightarrow> bool" where
  "line_ok loads filepath line =
     (line = [CHR 0x0A] \<or>
      (case loads line of
         None \<Rightarrow> False
       | Some u \<Rightarrow>
          (case py_contains ''delete'' u of
             Inl e \<Rightarrow> False
           | Inr True \<Rightarrow> True
           | Inr False \<Rightarrow>
              (case py_contains ''id'' u of
                 Inl e \<Rightarrow> False
               | Inr False \<Rightarrow> True
               | Inr True \<Rightarrow> \<not> isl (tweet_action filepath 0 u)))))"


section \<open>Reading a trace\<close>

definition is_index_event :: "event \<Rightarrow> bool" where
  "is_index_event ev = (case ev of EsIndex i t body ident \<Rightarrow> True | _ \<Rightarrow> False)"

text \<open>
  A file counts as processed when it was ingested (its bulk write was made) or skipped
  as a duplicate (the \<^verbatim>\<open>already indexed\<close> log entry).
\<close>

definition is_processed_event :: "event \<Rightarrow> bool" where
  "is_processed_event ev =
     (case ev of
        EsBulk actions \<Rightarrow> True
      | Log lvl fmt args \<Rightarrow> lvl = Info \<and> fmt = ''%s already indexed''
      | _ \<Rightarrow> False)"

definition files_processed :: "event list \<Rightarrow> nat" where
  "files_processed tr = length (filter is_processed_event tr)"

definition action_source :: "pyval \<Rightarrow> string \<Rightarrow> pyval option" where
  "action_source b field =
     (case b of
        PDict kvs \<Rightarrow>
          (case dict_get kvs ''_source'' of Some (PDict s) \<Rightarrow> dict_get s field | _ \<Rightarrow> None)
      | _ \<Rightarrow> None)"


section \<open>A sample environment\<close>

text \<open>
  The tweet line of the end-to-end example and the value \<^verbatim>\<open>json.loads\<close> gives for it; a
  loader that knows this line and raises on anything else; the MD5 digests of two path
  strings; a tree with the same archive under two directories.
\<close>

definition sample_line :: string where
  "sample_line =
     ''{\"id\":1,\"text\":\"hi\",\"user\":{\"screen_name\":\"a\"},\"created_at\":\"d1\",'' @
     ''\"entities\":{\"hashtags\":[],\"user_mentions\":[]}}'' @ [CHR 0x0A]"

definition sample_tweet :: pyval where
  "sample_tweet =
     PDict [(''id'', PInt 1), (''text'', PStr ''hi''),
            (''user'', PDict [(''screen_name'', PStr ''a'')]),
            (''created_at'', PStr ''d1''),
            (''entities'', PDict [(''hashtags'', PList []), (''user_mentions'', PList [])])]"

definition sample_loads :: "string \<Rightarrow> pyval option" where
  "sample_loads line = (if line = sample_line then Some sample_tweet else None)"

definition sample_action :: "nat \<Rightarrow> pyval" where
  "sample_action offset =
     PDict [(''_index'', PStr ''sample-index''), (''_type'', PStr ''tweet''), (''_id'', PInt 1),
            (''_source'', PDict [
               (''file'', PStr ''sample-1.gz''), (''offset'', PInt (int offset)),
               (''id'', PInt 1), (''screen_name'', PStr ''a''), (''text'', PStr ''hi''),
               (''created_at'', PStr ''d1''), (''user_mentions'', PList []),
               (''hashtags'', PList [])])]"

definition sample_md5 :: "string \<Rightarrow> string" where
  "sample_md5 s =
     (if s = ''/data/a/sample-1.gz'' then ''c002c92cfb93b200007af68a76429a3e''
      else if s = ''/data/b/sample-1.gz'' then ''1c3f4dcdbb7730013411f67f38080319''
      else ''d41d8cd98f00b204e9800998ecf8427e'')"

definition sample_key :: s3key where
  "sample_key = \<lparr>key_name = ''sample-1.gz'',
                  key_etag = ''\"C002C92CFB93B200007AF68A76429A3E\"'',
                  key_md5 = PNone,
                  key_gunzip = Some sample_line\<rparr>"

definition sample_ext :: externals where
  "sample_ext =
     \<lparr>json_loads = sample_loads,
      md5_hexdigest = sample_md5,
      os_walk = (\<lambda>d. if d = ''/data''
                     then [(''/data'', []), (''/data/a'', [''sample-1.gz'']),
                           (''/data/b'', [''sample-1.gz''])]
                     else []),
      gzip_open = (\<lambda>p. True),
      gzip_read = (\<lambda>p. Some (sample_line @ ''oops'' @ [CHR 0x0A])),
      environ = (\<lambda>n. if n = ''AWS_ACCESS_KEY_ID'' then Some ''AKIAEXAMPLE''
                     else if n = ''AWS_SECRET_ACCESS_KEY'' then Some ''secret''
                     else None),
      s3_list = (\<lambda>b. [sample_key]),
      es_search_total = (\<lambda>tr doc_type q. 0),
      es_bulk = (\<lambda>tr actions. (length actions, [])),
      now = (\<lambda>tr. length tr)\<rparr>"

text \<open>The same environment with an index that reports every fingerprint as known.\<close>

definition sample_ext_indexed :: externals where
  "sample_ext_indexed = sample_ext\<lparr>es_search_total := (\<lambda>tr doc_type q. 1)\<rparr>"

text \<open>The same environment without the secret key.\<close>

definition sample_ext_no_secret :: externals where
  "sample_ext_no_secret =
     sample_ext\<lparr>environ := (\<lambda>n. if n = ''AWS_ACCESS_KEY_ID'' then Some ''AKIAEXAMPLE'' else None)\<rparr>"


section \<open>Properties of the query builder\<close>

lemma query_filtered_construct:
  "query_filtered (construct_query t df dt um ht u) = filtered_body t df dt um ht u"
  by (simp add: construct_query_def query_filtered_def)

lemma query_must_construct:
  "query_must (construct_query t df dt um ht u) = must_clauses df dt um ht u"
  by (simp add: query_filtered_construct query_must_def filtered_body_def Let_def)

lemma query_scored_construct:
  "query_scored (construct_query t df dt um ht u) =
     (if truthy t then Some (match_clause t) else None)"
  by (simp add: query_filtered_construct query_scored_def filtered_body_def Let_def)

text \<open>
  C4. With no field set the builder returns the match-all query: a \<^verbatim>\<open>filtered\<close> body
  with an empty \<^verbatim>\<open>must\<close> list and no \<^verbatim>\<open>query\<close> entry. A non-empty list given as
  \<^verbatim>\<open>users\<close>, \<^verbatim>\<open>user_mentions\<close> or \<^verbatim>\<open>hashtags\<close> adds exactly one \<^verbatim>\<open>terms\<close> clause
  over \<^verbatim>\<open>screen_name\<close>, \<^verbatim>\<open>user_mentions\<close> or \<^verbatim>\<open>hashtags\<close>, holding the list as given,
  whatever the other arguments are; given alone, that clause is the whole \<^verbatim>\<open>must\<close>
  list and the result has no \<^verbatim>\<open>query\<close> entry. A text together with a hashtag list
  gives one \<^verbatim>\<open>match\<close> clause on \<^verbatim>\<open>text\<close> under \<^verbatim>\<open>query\<close> and one \<^verbatim>\<open>terms\<close> clause under
  \<^verbatim>\<open>filter\<close>. The scored part of the result is the \<^verbatim>\<open>match\<close> clause or absent: no
  filter clause is placed there. The last conjunct writes the result out for all
  arguments.
\<close>

theorem construct_query_shape:
  "construct_query PNone PNone PNone PNone PNone PNone =
     PDict [(''query'', PDict [(''filtered'',
       PDict [(''filter'', PDict [(''bool'', PDict [(''must'', PList [])])])])])]
   \<and> (us \<noteq> [] \<longrightarrow>
        filter (is_terms_on ''screen_name'') (query_must (construct_query t df dt um ht (PList us)))
          = [PDict [(''terms'', PDict [(''screen_name'', PList us)])]])
   \<and> (ms \<noteq> [] \<longrightarrow>
        filter (is_terms_on ''user_mentions'') (query_must (construct_query t df dt (PList ms) ht u))
          = [PDict [(''terms'', PDict [(''user_mentions'', PList ms)])]])
   \<and> (hs \<noteq> [] \<longrightarrow>
        filter (is_terms_on ''hashtags'') (query_must (construct_query t df dt um (PList hs) u))
          = [PDict [(''terms'', PDict [(''hashtags'', PList hs)])]])
   \<and> (us \<noteq> [] \<longrightarrow>
        construct_query PNone PNone PNone PNone PNone (PList us) =
          PDict [(''query'', PDict [(''filtered'',
            PDict [(''filter'', PDict [(''bool'', PDict [(''must'',
                      PList [PDict [(''terms'', PDict [(''screen_name'', PList us)])]])])])])])])
   \<and> (ms \<noteq> [] \<longrightarrow>
        construct_query PNone PNone PNone (PList ms) PNone PNone =
          PDict [(''query'', PDict [(''filtered'',
            PDict [(''filter'', PDict [(''bool'', PDict [(''must'',
                      PList [PDict [(''terms'', PDict [(''user_mentions'', PList ms)])]])])])])])])
   \<and> (hs \<noteq> [] \<longrightarrow>
        construct_query PNone PNone PNone PNone (PList hs) PNone =
          PDict [(''query'', PDict [(''filtered'',
            PDict [(''filter'', PDict [(''bool'', PDict [(''must'',
                      PList [PDict [(''terms'', PDict [(''hashtags'', PList hs)])]])])])])])])
   \<and> (s \<noteq> [] \<and> hs \<noteq> [] \<longrightarrow>
        construct_query (PStr s) PNone PNone PNone (PList hs) PNone =
          PDict [(''query'', PDict [(''filtered'',
            PDict [(''filter'', PDict [(''bool'', PDict [(''must'',
                      PList [PDict [(''terms'', PDict [(''hashtags'', PList hs)])]])])]),
                   (''query'', PDict [(''match'', PDict [(''text'', PStr s)])])])])])
   \<and> query_scored (construct_query t df dt um ht u)
        = (if truthy t then Some (PDict [(''match'', PDict [(''text'', t)])]) else None)
   \<and> construct_query t df dt um ht u =
        PDict [(''query'', PDict [(''filtered'',
          PDict ([(''filter'', PDict [(''bool'', PDict [(''must'',
                    PList ((if truthy um
                            then [PDict [(''terms'', PDict [(''user_mentions'', um)])]] else []) @
                           (if truthy ht
                            then [PDict [(''terms'', PDict [(''hashtags'', ht)])]] else []) @
                           (if truthy u
                            then [PDict [(''terms'', PDict [(''screen_name'', u)])]] else []) @
                           (if truthy df \<or> truthy dt
                            then [PDict [(''range'', PDict [(''created_at'',
                                    PDict ((if truthy df then [(''gte'', df)] else []) @
                                           (if truthy dt then [(''lte'', dt)] else [])))])]]
                            else [])))])])] @
                 (if truthy t
                  then [(''query'', PDict [(''match'', PDict [(''text'', t)])])] else [])))])]"
proof (intro conjI impI)
  show "construct_query PNone PNone PNone PNone PNone PNone =
     PDict [(''query'', PDict [(''filtered'',
       PDict [(''filter'', PDict [(''bool'', PDict [(''must'', PList [])])])])])]"
    by (simp add: construct_query_def filtered_body_def must_clauses_def)
next
  assume "us \<noteq> []"
  then show "filter (is_terms_on ''screen_name'')
      (query_must (construct_query t df dt um ht (PList us)))
        = [PDict [(''terms'', PDict [(''screen_name'', PList us)])]]"
    by (simp add: query_must_construct must_clauses_def is_terms_on_def terms_clause_def
        range_clause_def Let_def)
next
  assume "ms \<noteq> []"
  then show "filter (is_terms_on ''user_mentions'')
      (query_must (construct_query t df dt (PList ms) ht u))
        = [PDict [(''terms'', PDict [(''user_mentions'', PList ms)])]]"
    by (simp add: query_must_construct must_clauses_def is_terms_on_def terms_clause_def
        range_clause_def Let_def)
next
  assume "hs \<noteq> []"
  then show "filter (is_terms_on ''hashtags'')
      (query_must (construct_query t df dt um (PList hs) u))
        = [PDict [(''terms'', PDict [(''hashtags'', PList hs)])]]"
    by (simp add: query_must_construct must_clauses_def is_terms_on_def terms_clause_def
        range_clause_def Let_def)
next
  assume "us \<noteq> []"
  then show "construct_query PNone PNone PNone PNone PNone (PList us) =
          PDict [(''query'', PDict [(''filtered'',
            PDict [(''filter'', PDict [(''bool'', PDict [(''must'',
                      PList [PDict [(''terms'', PDict [(''screen_name'', PList us)])]])])])])])]"
    by (simp add: construct_query_def filtered_body_def must_clauses_def terms_clause_def)
next
  assume "ms \<noteq> []"
  then show "construct_query PNone PNone PNone (PList ms) PNone PNone =
          PDict [(''query'', PDict [(''filtered'',
            PDict [(''filter'', PDict [(''bool'', PDict [(''must'',
                      PList [PDict [(''terms'', PDict [(''user_mentions'', PList ms)])]])])])])])]"
    by (simp add: construct_query_def filtered_body_def must_clauses_def terms_clause_def)
next
  assume "hs \<noteq> []"
  then show "construct_query PNone PNone PNone PNone (PList hs) PNone =
          PDict [(''query'', PDict [(''filtered'',
            PDict [(''filter'', PDict [(''bool'', PDict [(''must'',
                      PList [PDict [(''terms'', PDict [(''hashtags'', PList hs)])]])])])])])]"
    by (simp add: construct_query_def filtered_body_def must_clauses_def terms_clause_def)
next
  assume "s \<noteq> [] \<and> hs \<noteq> []"
  then show "construct_query (PStr s) PNone PNone PNone (PList hs) PNone =
          PDict [(''query'', PDict [(''filtered'',
            PDict [(''filter'', PDict [(''bool'', PDict [(''must'',
                      PList [PDict [(''terms'', PDict [(''hashtags'', PList hs)])]])])]),
                   (''query'', PDict [(''match'', PDict [(''text'', PStr s)])])])])]"
    by (simp add: construct_query_def filtered_body_def must_clauses_def terms_clause_def
        match_clause_def)
next
  show "query_scored (construct_query t df dt um ht u)
        = (if truthy t then Some (PDict [(''match'', PDict [(''text'', t)])]) else None)"
    by (simp add: query_scored_construct match_clause_def)
next
  show "construct_query t df dt um ht u =
        PDict [(''query'', PDict [(''filtered'',
          PDict ([(''filter'', PDict [(''bool'', PDict [(''must'',
                    PList ((if truthy um
                            then [PDict [(''terms'', PDict [(''user_mentions'', um)])]] else []) @
                           (if truthy ht
                            then [PDict [(''terms'', PDict [(''hashtags'', ht)])]] else []) @
                           (if truthy u
                            then [PDict [(''terms'', PDict [(''screen_name'', u)])]] else []) @
                           (if truthy df \<or> truthy dt
                            then [PDict [(''range'', PDict [(''created_at'',
                                    PDict ((if truthy df then [(''gte'', df)] else []) @
                                           (if truthy dt then [(''lte'', dt)] else [])))])]]
                            else [])))])])] @
                 (if truthy t
                  then [(''query'', PDict [(''match'', PDict [(''text'', t)])])] else [])))])]"
    by (simp add: construct_query_def filtered_body_def must_clauses_def terms_clause_def
        match_clause_def range_clause_def Let_def)
qed

text \<open>The same at \<^verbatim>\<open>users=["a","b"]\<close>, and at \<^verbatim>\<open>text="foo"\<close> with \<^verbatim>\<open>hashtags=["bar"]\<close>.\<close>

theorem construct_query_shape_witness:
  "[PStr ''a'', PStr ''b''] \<noteq> [] \<and> ''foo'' \<noteq> [] \<and> [PStr ''bar''] \<noteq> []
   \<and> filter (is_terms_on ''screen_name'')
        (query_must (construct_query PNone PNone PNone PNone PNone (PList [PStr ''a'', PStr ''b''])))
        = [PDict [(''terms'', PDict [(''screen_name'', PList [PStr ''a'', PStr ''b''])])]]
   \<and> filter (is_terms_on ''user_mentions'')
        (query_must (construct_query PNone PNone PNone (PList [PStr ''a'', PStr ''b'']) PNone PNone))
        = [PDict [(''terms'', PDict [(''user_mentions'', PList [PStr ''a'', PStr ''b''])])]]
   \<and> filter (is_terms_on ''hashtags'')
        (query_must (construct_query PNone PNone PNone PNone (PList [PStr ''bar'']) PNone))
        = [PDict [(''terms'', PDict [(''hashtags'', PList [PStr ''bar''])])]]
   \<and> construct_query PNone PNone PNone PNone PNone (PList [PStr ''a'', PStr ''b'']) =
          PDict [(''query'', PDict [(''filtered'',
            PDict [(''filter'', PDict [(''bool'', PDict [(''must'',
                      PList [PDict [(''terms'',
                               PDict [(''screen_name'', PList [PStr ''a'', PStr ''b''])])]])])])])])]
   \<and> construct_query PNone PNone PNone (PList [PStr ''a'', PStr ''b'']) PNone PNone =
          PDict [(''query'', PDict [(''filtered'',
            PDict [(''filter'', PDict [(''bool'', PDict [(''must'',
                      PList [PDict [(''terms'',
                               PDict [(''user_mentions'', PList [PStr ''a'', PStr ''b''])])]])])])])])]
   \<and> construct_query PNone PNone PNone PNone (PList [PStr ''bar'']) PNone =
          PDict [(''query'', PDict [(''filtered'',
            PDict [(''filter'', PDict [(''bool'', PDict [(''must'',
                      PList [PDict [(''terms'', PDict [(''hashtags'', PList [PStr ''bar''])])]])])])])])]
   \<and> construct_query (PStr ''foo'') PNone PNone PNone (PList [PStr ''bar'']) PNone =
          PDict [(''query'', PDict [(''filtered'',
            PDict [(''filter'', PDict [(''bool'', PDict [(''must'',
                      PList [PDict [(''terms'', PDict [(''hashtags'', PList [PStr ''bar''])])]])])]),
                   (''query'', PDict [(''match'', PDict [(''text'', PStr ''foo'')])])])])]"
proof -
  have ne: "[PStr ''a'', PStr ''b''] \<noteq> []" "''foo'' \<noteq> []" "[PStr ''bar''] \<noteq> []"
    by simp_all
  from ne construct_query_shape [where us = "[PStr ''a'', PStr ''b'']" and t = PNone and df = PNone
      and dt = PNone and um = PNone and ht = PNone and ms = "[PStr ''a'', PStr ''b'']" and u = PNone
      and hs = "[PStr ''bar'']" and s = "''foo''"]
  show ?thesis
    by blast
qed

text \<open>
  C7. The \<^verbatim>\<open>must\<close> list holds exactly one \<^verbatim>\<open>range\<close> clause on \<^verbatim>\<open>created_at\<close> when
  \<^verbatim>\<open>date_from\<close> or \<^verbatim>\<open>date_to\<close> is set (truthy: not \<^verbatim>\<open>None\<close> and not empty), and
  none otherwise. The clause has \<^verbatim>\<open>gte\<close> equal to \<^verbatim>\<open>date_from\<close> exactly when
  \<^verbatim>\<open>date_from\<close> is set and \<^verbatim>\<open>lte\<close> equal to \<^verbatim>\<open>date_to\<close> exactly when \<^verbatim>\<open>date_to\<close> is
  set; with only \<^verbatim>\<open>date_from\<close> the clause has a lower bound and no upper bound.
\<close>

theorem construct_query_date_range:
  "filter is_range (query_must (construct_query t df dt um ht u)) =
     (if truthy df \<or> truthy dt
      then [PDict [(''range'', PDict [(''created_at'',
              PDict ((if truthy df then [(''gte'', df)] else []) @
                     (if truthy dt then [(''lte'', dt)] else [])))])]]
      else [])
   \<and> filter is_range (query_must (construct_query t df PNone um ht u)) =
     (if truthy df
      then [PDict [(''range'', PDict [(''created_at'', PDict [(''gte'', df)])])]]
      else [])"
  by (simp add: query_must_construct must_clauses_def is_range_def terms_clause_def
      range_clause_def Let_def)

section \<open>Properties of the record extractor\<close>

text \<open>
  On a content whose lines are all \<open>line_ok\<close>, \<^verbatim>\<open>gen_tweets\<close> raises nothing and yields
  what the specification says: the records of the tweet lines, in line order, each
  with the position at which its line begins.
\<close>

lemma split_lines_take_line:
  "s \<noteq> [] \<Longrightarrow> split_lines s = take_line s # split_lines (drop (length (take_line s)) s)"
proof (induction s)
  case Nil
  then show ?case by simp
next
  case (Cons c cs)
  show ?case
  proof (cases "cs = []")
    case True
    then show ?thesis by simp
  next
    case False
    with Cons.IH show ?thesis by simp
  qed
qed

lemma split_lines_readline:
  "drop pos buf \<noteq> [] \<Longrightarrow>
   split_lines (drop pos buf)
     = readline buf pos # split_lines (drop (pos + length (readline buf pos)) buf)"
  using split_lines_take_line [of "drop pos buf"]
  by (simp add: readline_def add.commute)

lemma isl_bind_err: "isl (bind_err m f) \<longleftrightarrow> isl m \<or> isl (f (projr m))"
  by (cases m) auto

lemma tweet_action_isl_offset:
  "isl (tweet_action filepath offset u) = isl (tweet_action filepath 0 u)"
  by (simp add: tweet_action_def isl_bind_err)

lemma gen_line_ok:
  assumes "line \<noteq> [CHR 0x0A]" and "line_ok loads filepath line"
  shows "\<exists>evs u. gen_line loads filepath offset uline line
                   = (spec_line loads filepath offset line, evs, Inr (Some u))"
proof -
  from assms obtain u where u: "loads line = Some u"
    by (auto simp: line_ok_def split: option.splits)
  have iff: "isl (tweet_action filepath offset u) = isl (tweet_action filepath 0 u)"
    by (rule tweet_action_isl_offset)
  show ?thesis
    using assms u iff
    by (cases "tweet_action filepath offset u")
       (auto simp: line_ok_def gen_line_def spec_line_def split: sum.splits bool.splits)
qed

lemma gen_loop_clean:
  "offset = pos \<Longrightarrow> list_all (line_ok loads filepath) (split_lines (drop pos buf)) \<Longrightarrow>
   yielded (gen_loop loads filepath buf pos offset uline)
     = spec_records loads filepath pos (split_lines (drop pos buf))
   \<and> raised (gen_loop loads filepath buf pos offset uline) = None"
proof (induction loads filepath buf pos offset uline rule: gen_loop.induct)
  case (1 loads filepath buf pos offset uline)
  let ?line = "readline buf pos"
  let ?pos' = "pos + length ?line"
  show ?case
  proof (cases "?line = []")
    case True
    then have "drop pos buf = []"
      by (simp add: readline_def take_line_empty)
    with True show ?thesis by (subst (1 2) gen_loop.simps) simp
  next
    case ne: False
    then have "drop pos buf \<noteq> []"
      by (auto simp: readline_def)
    then have sl: "split_lines (drop pos buf) = ?line # split_lines (drop ?pos' buf)"
      by (rule split_lines_readline)
    with "1.prems" have ok: "line_ok loads filepath ?line"
      and oks: "list_all (line_ok loads filepath) (split_lines (drop ?pos' buf))"
      by simp_all
    show ?thesis
    proof (cases "?line = [CHR 0x0A]")
      case True
      from "1.IH"(1) [OF refl ne refl True refl oks] ne True sl show ?thesis
        by (subst (1 2) gen_loop.simps) (simp add: Let_def spec_line_def)
    next
      case nb: False
      from gen_line_ok [OF nb ok, of offset uline] obtain evs u
        where g: "gen_line loads filepath offset uline ?line
                    = (spec_line loads filepath offset ?line, evs, Inr (Some u))"
        by blast
      from "1.IH"(2) [OF refl ne refl nb g [symmetric] refl refl refl oks] ne nb g sl "1.prems"(1)
      show ?thesis
        by (subst (1 2) gen_loop.simps) (simp add: Let_def)
    qed
  qed
qed

lemma gen_tweets_clean_file:
  "list_all (line_ok loads filepath) (split_lines file_contents) \<Longrightarrow>
   yielded (gen_tweets loads filepath file_contents)
     = spec_records loads filepath 0 (split_lines file_contents)
   \<and> raised (gen_tweets loads filepath file_contents) = None"
  using gen_loop_clean [of 0 0 loads filepath file_contents None]
  by (simp add: gen_tweets_def)

lemma gen_tweets_clean_file_sample:
  "list_all (line_ok sample_loads ''sample-1.gz'') (split_lines (sample_line @ [CHR 0x0A] @ sample_line))
   \<and> yielded (gen_tweets sample_loads ''sample-1.gz'' (sample_line @ [CHR 0x0A] @ sample_line))
       = [sample_action 0, sample_action 113]"
proof -
  have ok: "list_all (line_ok sample_loads ''sample-1.gz'')
              (split_lines (sample_line @ [CHR 0x0A] @ sample_line))"
    by code_simp
  have "spec_records sample_loads ''sample-1.gz'' 0
          (split_lines (sample_line @ [CHR 0x0A] @ sample_line))
        = [sample_action 0, sample_action 113]"
    by code_simp
  with ok gen_tweets_clean_file [OF ok] show ?thesis by simp
qed

text \<open>
  C1. The content is one valid tweet line followed by one line that is not JSON. The
  \<^verbatim>\<open>except\<close> branch logs the warning and falls through with \<^verbatim>\<open>uline\<close> still bound to
  the tweet of the line before, so the generator yields two actions, not one: the
  tweet again, with the offset of the malformed line. With the malformed line first,
  \<^verbatim>\<open>uline\<close> is unbound, the generator raises \<^verbatim>\<open>UnboundLocalError\<close> and the valid line after
  it is never read.
\<close>

theorem gen_tweets_malformed_line:
  "yielded (gen_tweets sample_loads ''sample-1.gz'' (sample_line @ ''oops'' @ [CHR 0x0A]))
     = [sample_action 0, sample_action 112]
   \<and> gen_tweets sample_loads ''sample-1.gz'' (''oops'' @ [CHR 0x0A] @ sample_line)
     = \<lparr>yielded = [],
        logged = [Log Warn ''Malformed tweet in %s: %s''
                    [PStr ''sample-1.gz'', PStr (''oops'' @ [CHR 0x0A])]],
        raised = Some UnboundLocalError\<rparr>"
  by code_simp

text \<open>
  C5. For the same content the second action yielded carries tweet id 1 and offset
  112. Reading one line at 112 gives the malformed line, which does not parse; the line
  of tweet 1 begins at 0.
\<close>

theorem gen_tweets_stale_offset:
  "action_source
     (yielded (gen_tweets sample_loads ''sample-1.gz'' (sample_line @ ''oops'' @ [CHR 0x0A])) ! 1)
     ''id'' = Some (PInt 1)
   \<and> action_source
     (yielded (gen_tweets sample_loads ''sample-1.gz'' (sample_line @ ''oops'' @ [CHR 0x0A])) ! 1)
     ''offset'' = Some (PInt 112)
   \<and> readline (sample_line @ ''oops'' @ [CHR 0x0A]) 112 = ''oops'' @ [CHR 0x0A]
   \<and> sample_loads (readline (sample_line @ ''oops'' @ [CHR 0x0A]) 112) = None
   \<and> readline (sample_line @ ''oops'' @ [CHR 0x0A]) 0 = sample_line"
  by code_simp


section \<open>Properties of the duplicate detector and the batch indexer\<close>

text \<open>
  C10. With both fingerprints \<^verbatim>\<open>None\<close>, \<^verbatim>\<open>already_indexed\<close> returns \<^verbatim>\<open>False\<close> and the
  trace is unchanged: no search was made.
\<close>

theorem already_indexed_no_fingerprint:
  "already_indexed ext PNone PNone tr = (Inr False, tr)"
  by (simp add: already_indexed_def lookup_fingerprint_def)

text \<open>
  C3. With one fingerprint given and the other \<^verbatim>\<open>None\<close>, as both walkers can call it,
  \<^verbatim>\<open>record_tweets\<close> raises \<^verbatim>\<open>AttributeError\<close> after the bulk write (line 338 calls
  \<^verbatim>\<open>.lower()\<close> on \<^verbatim>\<open>None\<close>) and writes no file document.
\<close>

theorem record_tweets_single_fingerprint_raises:
  "fst (record_tweets ext filepath (PStr m) PNone
          \<lparr>yielded = ys, logged = [], raised = None\<rparr> tr) = Inl AttributeError
   \<and> filter is_index_event
        (snd (record_tweets ext filepath (PStr m) PNone
               \<lparr>yielded = ys, logged = [], raised = None\<rparr> tr))
      = filter is_index_event tr
   \<and> fst (record_tweets ext filepath PNone (PStr e)
          \<lparr>yielded = ys, logged = [], raised = None\<rparr> tr) = Inl AttributeError
   \<and> filter is_index_event
        (snd (record_tweets ext filepath PNone (PStr e)
               \<lparr>yielded = ys, logged = [], raised = None\<rparr> tr))
      = filter is_index_event tr"
  by (simp add: record_tweets_def Let_def is_index_event_def split: prod.splits)

text \<open>
  C6. Called with md5 \<^verbatim>\<open>ABC\<close> and etag \<^verbatim>\<open>DEF\<close>, \<^verbatim>\<open>record_tweets\<close> writes a file document
  whose \<^verbatim>\<open>md5\<close> field is the one-element tuple \<^verbatim>\<open>('abc',)\<close>, not the string, whose
  \<^verbatim>\<open>etag\<close> field is the string \<^verbatim>\<open>def\<close>, and whose id is the md5 as given, \<^verbatim>\<open>ABC\<close>.
\<close>

theorem record_tweets_md5_field:
  "record_tweets sample_ext ''sample-1.gz'' (PStr ''ABC'') (PStr ''DEF'')
      \<lparr>yielded = [], logged = [], raised = None\<rparr> []
   = (Inr (),
      [EsBulk [],
       Log Info ''%s: %s tweets indexed.'' [PStr ''sample-1.gz'', PInt 0],
       Log Debug ''Recording file %s with md5 %s and etag %s''
         [PStr ''sample-1.gz'', PStr ''abc'', PStr ''def''],
       EsIndex ''sample-index'' ''file''
         (PDict [(''file'', PStr ''sample-1.gz''), (''index_date'', PDate 2),
                 (''md5'', PTuple [PStr ''abc'']), (''etag'', PStr ''def'')])
         (PStr ''ABC'')])"
  by code_simp


section \<open>Properties of the source walkers\<close>

text \<open>
  C2. The fingerprint of the local walker is the digest of the path string: it does not
  change with what the file contains, and the same content under
  \<^verbatim>\<open>/data/a/sample-1.gz\<close> and \<^verbatim>\<open>/data/b/sample-1.gz\<close> gets two different fingerprints,
  which are the ones the duplicate check is asked about.
\<close>

theorem local_fingerprint_is_path_digest:
  "local_fingerprint (ext\<lparr>gzip_read := r\<rparr>) root filename = local_fingerprint ext root filename
   \<and> gzip_read sample_ext ''/data/a/sample-1.gz'' = gzip_read sample_ext ''/data/b/sample-1.gz''
   \<and> local_fingerprint sample_ext ''/data/a'' ''sample-1.gz''
        = PStr ''c002c92cfb93b200007af68a76429a3e''
   \<and> local_fingerprint sample_ext ''/data/b'' ''sample-1.gz''
        = PStr ''1c3f4dcdbb7730013411f67f38080319''
   \<and> snd (walk_local_directory sample_ext_indexed ''/data'' None []) =
       [EsSearch ''sample-index'' ''file'' ''md5:c002c92cfb93b200007af68a76429a3e'',
        Log Debug ''Result of checking md5 %s: %s''
          [PStr ''c002c92cfb93b200007af68a76429a3e'', PInt 1],
        Log Info ''%s already indexed'' [PStr ''sample-1.gz''],
        EsSearch ''sample-index'' ''file'' ''md5:1c3f4dcdbb7730013411f67f38080319'',
        Log Debug ''Result of checking md5 %s: %s''
          [PStr ''1c3f4dcdbb7730013411f67f38080319'', PInt 1],
        Log Info ''%s already indexed'' [PStr ''sample-1.gz'']]"
proof (intro conjI)
  show "local_fingerprint (ext\<lparr>gzip_read := r\<rparr>) root filename = local_fingerprint ext root filename"
    by (simp add: local_fingerprint_def)
  show "gzip_read sample_ext ''/data/a/sample-1.gz'' = gzip_read sample_ext ''/data/b/sample-1.gz''"
    by (simp add: sample_ext_def)
  show "local_fingerprint sample_ext ''/data/a'' ''sample-1.gz''
        = PStr ''c002c92cfb93b200007af68a76429a3e''"
    by code_simp
  show "local_fingerprint sample_ext ''/data/b'' ''sample-1.gz''
        = PStr ''1c3f4dcdbb7730013411f67f38080319''"
    by code_simp
  show "snd (walk_local_directory sample_ext_indexed ''/data'' None []) =
       [EsSearch ''sample-index'' ''file'' ''md5:c002c92cfb93b200007af68a76429a3e'',
        Log Debug ''Result of checking md5 %s: %s''
          [PStr ''c002c92cfb93b200007af68a76429a3e'', PInt 1],
        Log Info ''%s already indexed'' [PStr ''sample-1.gz''],
        EsSearch ''sample-index'' ''file'' ''md5:1c3f4dcdbb7730013411f67f38080319'',
        Log Debug ''Result of checking md5 %s: %s''
          [PStr ''1c3f4dcdbb7730013411f67f38080319'', PInt 1],
        Log Info ''%s already indexed'' [PStr ''sample-1.gz'']]"
    by code_simp
qed

text \<open>
  C8. The tree has one matching file in each of two directories, both already indexed,
  and \<^verbatim>\<open>max_files\<close> is 1. \<^verbatim>\<open>file_counter\<close> restarts at zero in each directory and
  \<^verbatim>\<open>break\<close> leaves only the inner loop, so two files are processed.
\<close>

theorem walk_local_directory_cap_per_directory:
  "files_processed (snd (walk_local_directory sample_ext_indexed ''/data'' (Some 1) [])) = 2"
  by code_simp

text \<open>
  A file that cannot be opened ends the local walk with \<^verbatim>\<open>IOError\<close>, after the duplicate
  check of that file and before anything is written.
\<close>

lemma walk_local_directory_open_error:
  "walk_local_directory (sample_ext\<lparr>gzip_open := (\<lambda>p. False)\<rparr>) ''/data'' None [] =
     (Inl IOError,
      [EsSearch ''sample-index'' ''file'' ''md5:c002c92cfb93b200007af68a76429a3e'',
       Log Debug ''Result of checking md5 %s: %s''
         [PStr ''c002c92cfb93b200007af68a76429a3e'', PInt 0]])"
  by code_simp

subsection \<open>The cap of the bucket walker\<close>

text \<open>
  \<^verbatim>\<open>walk_bucket\<close> keeps one counter for the whole listing: with a positive \<^verbatim>\<open>max_files\<close>
  it processes at most that many objects.
\<close>

lemma files_processed_append:
  "files_processed (a @ b) = files_processed a + files_processed b"
  by (simp add: files_processed_def)

lemma gen_line_logs_not_processed:
  "gen_line loads filepath offset uline line = (ys, evs, r) \<Longrightarrow> files_processed evs = 0"
  by (auto simp: gen_line_def files_processed_def is_processed_event_def
      split: option.splits sum.splits bool.splits)

lemma gen_loop_logs_not_processed:
  "files_processed (logged (gen_loop loads filepath buf pos offset uline)) = 0"
proof (induction loads filepath buf pos offset uline rule: gen_loop.induct)
  case (1 loads filepath buf pos offset uline)
  let ?line = "readline buf pos"
  let ?pos' = "pos + length ?line"
  show ?case
  proof (cases "?line = []")
    case True
    then show ?thesis by (subst gen_loop.simps) (simp add: files_processed_def)
  next
    case ne: False
    show ?thesis
    proof (cases "?line = [CHR 0x0A]")
      case True
      with ne "1.IH"(1) [OF refl ne refl True] show ?thesis
        by (subst gen_loop.simps) (simp add: Let_def)
    next
      case nb: False
      obtain ys evs r where g: "gen_line loads filepath offset uline ?line = (ys, evs, r)"
        by (cases "gen_line loads filepath offset uline ?line") auto
      then have e0: "files_processed evs = 0"
        by (rule gen_line_logs_not_processed)
      show ?thesis
      proof (cases r)
        case (Inl e)
        with ne nb g e0 show ?thesis
          by (subst gen_loop.simps) (simp add: Let_def)
      next
        case (Inr uline')
        have "files_processed (logged (gen_loop loads filepath buf ?pos' ?pos' uline')) = 0"
          using "1.IH"(2) [OF refl ne refl nb g [symmetric] refl] Inr by simp
        with ne nb g Inr e0 show ?thesis
          by (subst gen_loop.simps) (simp add: Let_def files_processed_append)
      qed
    qed
  qed
qed

lemma record_tweets_processed:
  assumes "files_processed (logged g) = 0"
  shows "files_processed (snd (record_tweets ext fp md5 etag g tr)) \<le> files_processed tr + 1"
  using assms
  by (cases "py_lower md5"; cases "py_lower etag")
     (auto simp: record_tweets_def Let_def files_processed_def is_processed_event_def
        split: option.splits prod.splits)

lemma lookup_fingerprint_processed:
  "files_processed (snd (lookup_fingerprint ext field fp tr)) = files_processed tr"
  by (cases "py_lower fp")
     (auto simp: lookup_fingerprint_def Let_def files_processed_def is_processed_event_def)

lemma already_indexed_processed:
  "files_processed (snd (already_indexed ext md5 etag tr)) = files_processed tr"
proof -
  obtain r1 tr1 where l1: "lookup_fingerprint ext ''md5'' md5 tr = (r1, tr1)"
    by (cases "lookup_fingerprint ext ''md5'' md5 tr") auto
  obtain r2 tr2 where l2: "lookup_fingerprint ext ''etag'' etag tr1 = (r2, tr2)"
    by (cases "lookup_fingerprint ext ''etag'' etag tr1") auto
  from l1 have "files_processed tr1 = files_processed tr"
    using lookup_fingerprint_processed [of ext "''md5''" md5 tr] by simp
  moreover from l2 have "files_processed tr2 = files_processed tr1"
    using lookup_fingerprint_processed [of ext "''etag''" etag tr1] by simp
  ultimately show ?thesis
    using l1 l2
    by (auto simp: already_indexed_def split: sum.splits bool.splits)
qed

lemma index_key_processed:
  "files_processed (snd (index_key ext key tr)) \<le> files_processed tr + 1
   \<and> (fst (index_key ext key tr) = Inr False
        \<longrightarrow> files_processed (snd (index_key ext key tr)) = files_processed tr)"
proof -
  let ?etag = "PStr (slice_1_m1 (key_etag key))"
  obtain r1 tr1 where a: "already_indexed ext PNone ?etag tr = (r1, tr1)"
    by (cases "already_indexed ext PNone ?etag tr") auto
  then have t1: "files_processed tr1 = files_processed tr"
    using already_indexed_processed [of ext PNone ?etag tr] by simp
  have rt: "record_tweets ext (key_name key) (key_md5 key) ?etag
              (gen_tweets (json_loads ext) (key_name key) c) tr' = (r, t)
            \<Longrightarrow> files_processed t \<le> files_processed tr' + 1" for c tr' r t
    using record_tweets_processed [of "gen_tweets (json_loads ext) (key_name key) c"
        ext "key_name key" "key_md5 key" ?etag tr']
    by (simp add: gen_tweets_def gen_loop_logs_not_processed)
  show ?thesis
    using a t1
    by (auto simp: index_key_def Let_def files_processed_def is_processed_event_def
        split: sum.splits bool.splits option.splits prod.splits
        dest!: rt [unfolded files_processed_def])
qed

lemma walk_keys_cap:
  "0 < n \<Longrightarrow> file_counter < n \<Longrightarrow>
   int (files_processed (snd (walk_keys ext (Some n) keys file_counter tr)))
     \<le> int (files_processed tr) + (n - file_counter)"
proof (induction keys arbitrary: file_counter tr)
  case Nil
  then show ?case by simp
next
  case (Cons key keys)
  obtain r1 tr1 where a: "index_key ext key tr = (r1, tr1)"
    by (cases "index_key ext key tr") auto
  from a have le: "files_processed tr1 \<le> files_processed tr + 1"
    and eq: "r1 = Inr False \<Longrightarrow> files_processed tr1 = files_processed tr"
    using index_key_processed [of ext key tr] by simp_all
  show ?case
  proof (cases r1)
    case (Inl e)
    with a le Cons.prems show ?thesis by simp
  next
    case (Inr counted)
    show ?thesis
    proof (cases counted)
      case False
      with a Inr eq Cons.IH [OF Cons.prems, of tr1] show ?thesis by simp
    next
      case True
      show ?thesis
      proof (cases "cap_reached (Some n) (file_counter + 1)")
        case True
        with a Inr \<open>counted\<close> le Cons.prems show ?thesis by simp
      next
        case False
        with Cons.prems have lt: "file_counter + 1 < n"
          by (simp add: cap_reached_def)
        from Cons.IH [OF Cons.prems(1) lt, of tr1] a Inr \<open>counted\<close> False le
        show ?thesis by simp
      qed
    qed
  qed
qed

lemma walk_bucket_cap:
  "0 < n \<Longrightarrow>
   int (files_processed (snd (walk_bucket ext bucket_name (Some n) tr)))
     \<le> int (files_processed tr) + n"
  using walk_keys_cap [of n 0 ext "s3_list ext bucket_name"
      "tr @ [S3Connect, S3GetBucket bucket_name, S3List bucket_name]"]
  by (simp add: walk_bucket_def files_processed_append)
     (simp add: files_processed_def is_processed_event_def)


subsection \<open>The configuration error comes from the credential check only\<close>

lemma bind_err_no_config:
  "m \<noteq> Inl ConfigError \<Longrightarrow> (\<And>x. f x \<noteq> Inl ConfigError) \<Longrightarrow> bind_err m f \<noteq> Inl ConfigError"
  by (cases m) auto

lemma py_getitem_no_config: "py_getitem v k \<noteq> Inl ConfigError"
  by (cases v) (auto split: option.splits)

lemma py_iter_no_config: "py_iter v \<noteq> Inl ConfigError"
  by (cases v) auto

lemma py_contains_no_config: "py_contains k v \<noteq> Inl ConfigError"
  by (cases v) auto

lemma py_lower_no_config: "py_lower v \<noteq> Inl ConfigError"
  by (cases v) auto

lemma map_err_no_config:
  "(\<And>x. f x \<noteq> Inl ConfigError) \<Longrightarrow> map_err f xs \<noteq> Inl ConfigError"
  by (induction xs) (simp_all add: bind_err_no_config)

lemma tweet_action_no_config: "tweet_action filepath offset u \<noteq> Inl ConfigError"
  unfolding tweet_action_def
  by (simp add: bind_err_no_config py_getitem_no_config py_iter_no_config map_err_no_config)

lemma gen_line_no_config:
  "gen_line loads filepath offset uline line = (ys, evs, r) \<Longrightarrow> r \<noteq> Inl ConfigError"
  using py_contains_no_config tweet_action_no_config
  by (auto simp: gen_line_def split: option.splits sum.splits bool.splits prod.splits if_splits)

lemma gen_loop_no_config:
  "raised (gen_loop loads filepath buf pos offset uline) \<noteq> Some ConfigError"
proof (induction loads filepath buf pos offset uline rule: gen_loop.induct)
  case (1 loads filepath buf pos offset uline)
  let ?line = "readline buf pos"
  let ?pos' = "pos + length ?line"
  show ?case
  proof (cases "?line = []")
    case True
    then show ?thesis by (subst gen_loop.simps) simp
  next
    case ne: False
    show ?thesis
    proof (cases "?line = [CHR 0x0A]")
      case True
      with ne "1.IH"(1) [OF refl ne refl True] show ?thesis
        by (subst gen_loop.simps) (simp add: Let_def)
    next
      case nb: False
      obtain ys evs r where g: "gen_line loads filepath offset uline ?line = (ys, evs, r)"
        by (cases "gen_line loads filepath offset uline ?line") auto
      show ?thesis
      proof (cases r)
        case (Inl e)
        with g have "e \<noteq> ConfigError" using gen_line_no_config by blast
        with ne nb g Inl show ?thesis
          by (subst gen_loop.simps) (simp add: Let_def)
      next
        case (Inr uline')
        have "raised (gen_loop loads filepath buf ?pos' ?pos' uline') \<noteq> Some ConfigError"
          using "1.IH"(2) [OF refl ne refl nb g [symmetric] refl] Inr by simp
        with ne nb g Inr show ?thesis
          by (subst gen_loop.simps) (simp add: Let_def)
      qed
    qed
  qed
qed

lemma gen_tweets_no_config: "raised (gen_tweets loads filepath buf) \<noteq> Some ConfigError"
  by (simp add: gen_tweets_def gen_loop_no_config)

lemma record_tweets_no_config:
  assumes "raised g \<noteq> Some ConfigError"
  shows "fst (record_tweets ext fp md5 etag g tr) \<noteq> Inl ConfigError"
proof -
  have a: "py_lower md5 = Inl e \<Longrightarrow> e \<noteq> ConfigError" for e
    using py_lower_no_config [of md5] by auto
  have b: "py_lower etag = Inl e \<Longrightarrow> e \<noteq> ConfigError" for e
    using py_lower_no_config [of etag] by auto
  show ?thesis
    using assms a b
    by (cases "py_lower md5"; cases "py_lower etag")
       (auto simp: record_tweets_def Let_def split: option.splits prod.splits)
qed

lemma lookup_fingerprint_no_config:
  "fst (lookup_fingerprint ext field fp tr) \<noteq> Inl ConfigError"
  using py_lower_no_config [of fp]
  by (cases "py_lower fp") (auto simp: lookup_fingerprint_def Let_def)

lemma already_indexed_no_config:
  "fst (already_indexed ext md5 etag tr) \<noteq> Inl ConfigError"
proof -
  obtain r1 tr1 where l1: "lookup_fingerprint ext ''md5'' md5 tr = (r1, tr1)"
    by (cases "lookup_fingerprint ext ''md5'' md5 tr") auto
  obtain r2 tr2 where l2: "lookup_fingerprint ext ''etag'' etag tr1 = (r2, tr2)"
    by (cases "lookup_fingerprint ext ''etag'' etag tr1") auto
  from l1 have "r1 \<noteq> Inl ConfigError"
    using lookup_fingerprint_no_config [of ext "''md5''" md5 tr] by simp
  moreover from l2 have "r2 \<noteq> Inl ConfigError"
    using lookup_fingerprint_no_config [of ext "''etag''" etag tr1] by simp
  ultimately show ?thesis
    using l1 l2
    by (auto simp: already_indexed_def split: sum.splits bool.splits)
qed

lemma index_key_no_config:
  "fst (index_key ext key tr) \<noteq> Inl ConfigError"
proof -
  let ?etag = "PStr (slice_1_m1 (key_etag key))"
  obtain r1 tr1 where a: "already_indexed ext PNone ?etag tr = (r1, tr1)"
    by (cases "already_indexed ext PNone ?etag tr") auto
  then have r1: "r1 \<noteq> Inl ConfigError"
    using already_indexed_no_config [of ext PNone ?etag tr] by simp
  have rt: "record_tweets ext (key_name key) (key_md5 key) ?etag
              (gen_tweets (json_loads ext) (key_name key) c) tr' \<noteq> (Inl ConfigError, t)" for c tr' t
    using record_tweets_no_config [OF gen_tweets_no_config,
        of ext "key_name key" "key_md5 key" ?etag "json_loads ext" "key_name key" c tr']
    by auto
  show ?thesis
    using a r1 rt
    by (auto simp: index_key_def Let_def split: sum.splits bool.splits option.splits prod.splits)
qed

lemma walk_keys_no_config:
  "fst (walk_keys ext max_files keys file_counter tr) \<noteq> Inl ConfigError"
proof (induction keys arbitrary: file_counter tr)
  case Nil
  show ?case by simp
next
  case (Cons key keys)
  obtain r1 tr1 where a: "index_key ext key tr = (r1, tr1)"
    by (cases "index_key ext key tr") auto
  then have "r1 \<noteq> Inl ConfigError"
    using index_key_no_config [of ext key tr] by simp
  with a Cons.IH show ?case
    by (auto split: sum.splits bool.splits)
qed

text \<open>
  C9. When either credential variable is unset or empty, \<^verbatim>\<open>walk_bucket\<close> raises the
  configuration error and the trace is unchanged: no S3 call and no index access was
  made. When both are set, whatever \<^verbatim>\<open>walk_bucket\<close> returns or raises is not the
  configuration error.
\<close>

theorem walk_bucket_credentials:
  "(env_missing ext ''AWS_ACCESS_KEY_ID'' \<or> env_missing ext ''AWS_SECRET_ACCESS_KEY''
      \<longrightarrow> walk_bucket ext bucket_name max_files tr = (Inl ConfigError, tr))
   \<and> (\<not> env_missing ext ''AWS_ACCESS_KEY_ID'' \<and> \<not> env_missing ext ''AWS_SECRET_ACCESS_KEY''
      \<longrightarrow> fst (walk_bucket ext bucket_name max_files tr) \<noteq> Inl ConfigError)"
  by (simp add: walk_bucket_def walk_keys_no_config)

text \<open>
  The same without the secret key, and with both variables set.
\<close>

theorem walk_bucket_credentials_witness:
  "env_missing sample_ext_no_secret ''AWS_SECRET_ACCESS_KEY''
   \<and> walk_bucket sample_ext_no_secret default_bucket_name None [] = (Inl ConfigError, [])
   \<and> \<not> env_missing sample_ext ''AWS_ACCESS_KEY_ID''
   \<and> \<not> env_missing sample_ext ''AWS_SECRET_ACCESS_KEY''
   \<and> fst (walk_bucket sample_ext default_bucket_name None []) \<noteq> Inl ConfigError"
proof -
  have m: "env_missing sample_ext_no_secret ''AWS_SECRET_ACCESS_KEY''"
    by (simp add: env_missing_def sample_ext_no_secret_def sample_ext_def)
  have p: "\<not> env_missing sample_ext ''AWS_ACCESS_KEY_ID''"
          "\<not> env_missing sample_ext ''AWS_SECRET_ACCESS_KEY''"
    by (simp_all add: env_missing_def sample_ext_def)
  show ?thesis
    using m p
      walk_bucket_credentials [of sample_ext_no_secret default_bucket_name None "[]"]
      walk_bucket_credentials [of sample_ext default_bucket_name None "[]"]
    by simp
qed

end
